theory Spec2Isabelle
  imports Main "HOL-Library.Word" "HOL-Library.AList"
begin

section \<open>Values, fields and log entries (the type declarations, src/unnamed/part_000)\<close>

text \<open>
  A Go value of static type \<open>any\<close> is a tagged union over its dynamic type. The integer
  kinds carry their bits as words (\<open>int\<close> and \<open>uint\<close> are 64 bits wide, as on the amd64 and
  arm64 targets), the floating-point kinds carry their IEEE bit pattern, \<open>AError\<close> is a
  value implementing \<open>error\<close> with the given message and \<open>AStringer\<close> a value implementing
  \<open>fmt.Stringer\<close> with the given rendering.
\<close>

datatype any =
    AInt "64 word" | AInt8 "8 word" | AInt16 "16 word" | AInt32 "32 word" | AInt64 "64 word"
  | AUint "64 word" | AUint8 "8 word" | AUint16 "16 word" | AUint32 "32 word"
  | AUint64 "64 word" | AUintptr "64 word"
  | AFloat32 "32 word" | AFloat64 "64 word"
  | AString string | ABool bool | AError string | AStringer string | ANil

text \<open>Instants of \<open>time.Time\<close> are nanoseconds since the Unix epoch.\<close>

type_synonym time = int

text \<open>
  The parts of the Go standard library that the writer calls and that are not part of the
  repository are taken as parameters: \<open>fmt.Sprintf("%v", v)\<close> on values other than strings,
  errors and stringers, the float-to-\<open>int64\<close> conversions, \<open>json.Marshal\<close> on a residual
  mapping (\<open>None\<close> is the error return, whose byte slice is \<open>nil\<close>) and
  \<open>time.Parse(time.RFC3339, s)\<close> (\<open>None\<close> is the error return).
\<close>

record runtime =
  fmt_v :: "any \<Rightarrow> string"
  float32_to_int64 :: "32 word \<Rightarrow> 64 word"
  float64_to_int64 :: "64 word \<Rightarrow> 64 word"
  json_Marshal :: "(string \<times> any) list option \<Rightarrow> string option"
  time_Parse :: "string \<Rightarrow> time option"

record LogField =
  Key :: string
  Value :: any

definition Field :: "string \<Rightarrow> any \<Rightarrow> LogField" where
  "Field key val = \<lparr>Key = key, Value = val\<rparr>"

text \<open>
  \<open>UserID\<close> is a \<open>*int64\<close>: \<open>None\<close> is the nil pointer. \<open>Fields\<close> is a Go map: \<open>None\<close> is
  the nil map, and a map is an association list with one pair per key.
\<close>

record LogEntry =
  Timestamp :: string
  Level :: string
  Content :: string
  LogType :: string
  Duration :: string
  Trace :: string
  Span :: string
  UserID :: "64 word option"
  Fields :: "(string \<times> any) list option"

section \<open>Field extraction (src/utils.go)\<close>

text \<open>\<open>fmt.Sprintf("%v", v)\<close>: a string is printed as it is, an error by \<open>Error()\<close>, a
  stringer by \<open>String()\<close>.\<close>

fun sprint_v :: "runtime \<Rightarrow> any \<Rightarrow> string" where
  "sprint_v rt (AString s) = s"
| "sprint_v rt (AError m) = m"
| "sprint_v rt (AStringer s) = s"
| "sprint_v rt v = fmt_v rt v"

fun FormatContent :: "runtime \<Rightarrow> any \<Rightarrow> string" where
  "FormatContent rt (AString val) = val"
| "FormatContent rt (AError m) = m"
| "FormatContent rt (AStringer s) = s"
| "FormatContent rt v = sprint_v rt v"

text \<open>\<open>toInt64\<close>: the type switch, case by case; the second component is \<open>ok\<close>.\<close>

fun toInt64 :: "runtime \<Rightarrow> any \<Rightarrow> 64 word \<times> bool" where
  "toInt64 rt (AInt val) = (val, True)"
| "toInt64 rt (AInt32 val) = (scast val, True)"
| "toInt64 rt (AInt64 val) = (val, True)"
| "toInt64 rt (AUint val) = (val, True)"
| "toInt64 rt (AUint32 val) = (ucast val, True)"
| "toInt64 rt (AUint64 val) = (val, True)"
| "toInt64 rt (AFloat32 val) = (float32_to_int64 rt val, True)"
| "toInt64 rt (AFloat64 val) = (float64_to_int64 rt val, True)"
| "toInt64 rt v = (0, False)"

text \<open>The five named results of \<open>extractFields\<close>.\<close>

record extracted =
  x_trace :: string
  x_span :: string
  x_duration :: string
  x_logType :: string
  x_userID :: "64 word option"

text \<open>One iteration of the loop of \<open>extractFields\<close>: the \<open>switch field.Key\<close>.\<close>

definition extractField :: "runtime \<Rightarrow> extracted \<Rightarrow> LogField \<Rightarrow> extracted" where
  "extractField rt acc field =
     (let val = sprint_v rt (Value field) in
      if Key field = ''trace'' then acc\<lparr>x_trace := val\<rparr>
      else if Key field = ''span'' then acc\<lparr>x_span := val\<rparr>
      else if Key field = ''duration'' then acc\<lparr>x_duration := val\<rparr>
      else if Key field = ''log_type'' \<or> Key field = ''logType'' then acc\<lparr>x_logType := val\<rparr>
      else if Key field = ''user_id'' \<or> Key field = ''userId'' then
        (case toInt64 rt (Value field) of
           (uid, True) \<Rightarrow> acc\<lparr>x_userID := Some uid\<rparr>
         | (uid, False) \<Rightarrow> acc)
      else acc)"

definition extractFields :: "runtime \<Rightarrow> LogField list \<Rightarrow> extracted" where
  "extractFields rt fs =
     foldl (extractField rt)
       \<lparr>x_trace = [], x_span = [], x_duration = [], x_logType = [], x_userID = None\<rparr> fs"

text \<open>The keys that \<open>convertLogFields\<close> skips.\<close>

definition specialKey :: "string \<Rightarrow> bool" where
  "specialKey k =
     (k = ''trace'' \<or> k = ''span'' \<or> k = ''duration'' \<or> k = ''log_type'' \<or> k = ''logType''
      \<or> k = ''user_id'' \<or> k = ''userId'')"

fun convertLoop :: "LogField list \<Rightarrow> (string \<times> any) list \<Rightarrow> (string \<times> any) list" where
  "convertLoop [] result = result"
| "convertLoop (field # fs) result =
     (if specialKey (Key field) then convertLoop fs result
      else convertLoop fs (AList.update (Key field) (Value field) result))"

definition convertLogFields :: "LogField list \<Rightarrow> (string \<times> any) list option" where
  "convertLogFields fs =
     (if length fs = 0 then None
      else (let result = convertLoop fs [] in
            if length result = 0 then None else Some result))"

text \<open>The record literal built in \<open>Log\<close>; \<open>now\<close> is \<open>time.Now().Format(time.RFC3339)\<close>.\<close>

definition buildEntry :: "runtime \<Rightarrow> string \<Rightarrow> string \<Rightarrow> any \<Rightarrow> LogField list \<Rightarrow> LogEntry" where
  "buildEntry rt now level content fs =
     (let x = extractFields rt fs in
      \<lparr>Timestamp = now, Level = level, Content = FormatContent rt content,
       LogType = x_logType x, Duration = x_duration x, Trace = x_trace x, Span = x_span x,
       UserID = x_userID x, Fields = convertLogFields fs\<rparr>)"

text \<open>A runtime for closed evaluations: every library call it stands for fails or prints
  nothing.\<close>

definition nullRuntime :: runtime where
  "nullRuntime = \<lparr>fmt_v = (\<lambda>v. []), float32_to_int64 = (\<lambda>b. 0), float64_to_int64 = (\<lambda>b. 0),
     json_Marshal = (\<lambda>m. None), time_Parse = (\<lambda>s. None)\<rparr>"

section \<open>The backend interface and the configuration (src/unnamed/part_000)\<close>

text \<open>
  \<open>DBExecutor\<close> is an interface supplied by the caller. Its methods act on the world outside
  the process, of type \<open>'w\<close>, and return \<open>None\<close> for a nil error. The context argument is
  left out: a deadline that has passed is one of the reasons for which \<open>Exec\<close> may return an
  error.
\<close>

type_synonym dberror = string

datatype sqlarg =
    ArgTime time | ArgString string | ArgInt64Ptr "64 word option" | ArgBytes "string option"

type_synonym sqlcall = "string \<times> sqlarg list"

record 'w DBExecutor =
  db_Exec :: "string \<Rightarrow> sqlarg list \<Rightarrow> 'w \<Rightarrow> dberror option \<times> 'w"
  db_Ping :: "'w \<Rightarrow> dberror option \<times> 'w"
  db_Close :: "'w \<Rightarrow> dberror option \<times> 'w"

text \<open>\<open>BufferSize\<close> is a Go \<open>int\<close> that is only compared, \<open>FlushInterval\<close> a
  \<open>time.Duration\<close> in nanoseconds.\<close>

record PostgresConfig =
  TableName :: string
  BufferSize :: int
  FlushInterval :: int

definition DefaultPostgresConfig :: PostgresConfig where
  "DefaultPostgresConfig = \<lparr>TableName = ''logs'', BufferSize = 100, FlushInterval = 5 * 1000000000\<rparr>"

section \<open>The writer (src/utils.go, from \<open>PostgresqlWriter\<close> on)\<close>

datatype error =
    ErrDbRequired | ErrPing dberror | ErrEnsureTable dberror
  | PanicMakeslice | PanicNewTicker | PanicCloseOfClosedChannel

text \<open>The goroutine \<open>flushLoop\<close> that the wait group counts: not started or returned, running,
  or ended by the panic of \<open>time.NewTicker\<close> on an interval that is not positive.\<close>

datatype loopstate = LoopExited | LoopRunning | LoopPanicked

text \<open>
  The fields of the struct, and with them the two things that the writer's goroutines share
  with it: \<open>world\<close>, the state behind the backend handle, and \<open>goroutines\<close>, the batches of
  the \<open>go w.writeEntries(entries)\<close> statements that have been started and have not run yet.
  \<open>done_closed\<close> says that the channel \<open>done\<close> is closed. The mutex is the atomicity of
  \<open>AddEntry\<close> and \<open>Flush\<close>.
\<close>

record 'w PostgresqlWriter =
  db :: "'w DBExecutor"
  tableName :: string
  bufferSize :: int
  flushInterval :: int
  buffer :: "LogEntry list"
  done_closed :: bool
  loop :: loopstate
  world :: 'w
  goroutines :: "LogEntry list list"

text \<open>The statements, with each run of blanks, tabs and line breaks of the raw string
  literals written as one blank.\<close>

definition createTableQuery :: "string \<Rightarrow> string" where
  "createTableQuery tbl =
     '' CREATE TABLE IF NOT EXISTS '' @ tbl @
     '' ( id BIGSERIAL PRIMARY KEY, timestamp TIMESTAMPTZ NOT NULL DEFAULT NOW(), '' @
     ''level VARCHAR(20) NOT NULL, content TEXT, log_type VARCHAR(20), duration VARCHAR(50), '' @
     ''trace VARCHAR(100), span VARCHAR(100), user_id BIGINT, fields JSONB ) ''"

definition indexQuery :: "string \<Rightarrow> string \<Rightarrow> string" where
  "indexQuery tbl col =
     ''CREATE INDEX IF NOT EXISTS idx_'' @ tbl @ ''_'' @ col @ '' ON '' @ tbl @ ''('' @ col @ '')''"

definition indexes :: "string \<Rightarrow> string list" where
  "indexes tbl =
     [indexQuery tbl ''timestamp'', indexQuery tbl ''level'', indexQuery tbl ''trace'',
      indexQuery tbl ''user_id'', indexQuery tbl ''log_type'']"

definition insertQuery :: "string \<Rightarrow> string" where
  "insertQuery tbl =
     '' INSERT INTO '' @ tbl @
     '' (timestamp, level, content, log_type, duration, trace, span, user_id, fields) '' @
     ''VALUES ($1, $2, $3, $4, $5, $6, $7, $8, $9) ''"

text \<open>The loop over \<open>indexes\<close> in \<open>ensureTable\<close>: it returns at the first error.\<close>

fun execIndexes :: "'w DBExecutor \<Rightarrow> string list \<Rightarrow> 'w \<Rightarrow> dberror option \<times> 'w" where
  "execIndexes d [] s = (None, s)"
| "execIndexes d (idx # idxs) s =
     (case db_Exec d idx [] s of
        (Some err, s') \<Rightarrow> (Some err, s')
      | (None, s') \<Rightarrow> execIndexes d idxs s')"

definition ensureTable :: "'w PostgresqlWriter \<Rightarrow> dberror option \<times> 'w PostgresqlWriter" where
  "ensureTable w =
     (case db_Exec (db w) (createTableQuery (tableName w)) [] (world w) of
        (Some err, s) \<Rightarrow> (Some err, w\<lparr>world := s\<rparr>)
      | (None, s) \<Rightarrow>
          (case execIndexes (db w) (indexes (tableName w)) s of
             (r, s') \<Rightarrow> (r, w\<lparr>world := s'\<rparr>)))"

text \<open>The statements of \<open>ensureTable\<close>, in the order in which it executes them.\<close>

definition provisioning :: "string \<Rightarrow> sqlcall list" where
  "provisioning tbl = (createTableQuery tbl, []) # map (\<lambda>q. (q, [])) (indexes tbl)"

text \<open>
  \<open>effectiveConfig\<close> is the replacement of a nil configuration by the default one,
  \<open>initWriter\<close> the struct literal of the constructor.
  The constructor returns the writer, or the error together with the world as the failed
  attempt left it. \<open>make([]LogEntry, 0, n)\<close> panics on a negative \<open>n\<close>; the goroutine
  started last panics in \<open>time.NewTicker\<close> when the interval is not positive, which the
  writer records in \<open>loop\<close>.
\<close>

definition effectiveConfig :: "PostgresConfig option \<Rightarrow> PostgresConfig" where
  "effectiveConfig config = (case config of None \<Rightarrow> DefaultPostgresConfig | Some c \<Rightarrow> c)"

definition initWriter :: "'w DBExecutor \<Rightarrow> PostgresConfig \<Rightarrow> 'w \<Rightarrow> 'w PostgresqlWriter" where
  "initWriter d cfg s =
     \<lparr>db = d, tableName = TableName cfg, bufferSize = BufferSize cfg,
      flushInterval = FlushInterval cfg, buffer = [], done_closed = False,
      loop = LoopExited, world = s, goroutines = []\<rparr>"

definition NewPostgresqlWriter ::
  "'w DBExecutor option \<Rightarrow> PostgresConfig option \<Rightarrow> 'w \<Rightarrow> (error \<times> 'w) + 'w PostgresqlWriter" where
  "NewPostgresqlWriter dbo config s =
     (case dbo of
        None \<Rightarrow> Inl (ErrDbRequired, s)
      | Some d \<Rightarrow>
          (let cfg = effectiveConfig config in
           case db_Ping d s of
             (Some err, s1) \<Rightarrow> Inl (ErrPing err, s1)
           | (None, s1) \<Rightarrow>
               if BufferSize cfg < 0 then Inl (PanicMakeslice, s1)
               else
                 (case ensureTable (initWriter d cfg s1) of
                    (Some err, w) \<Rightarrow> Inl (ErrEnsureTable err, world w)
                  | (None, w) \<Rightarrow>
                      Inr (w\<lparr>loop := (if flushInterval w \<le> 0 then LoopPanicked
                                       else LoopRunning)\<rparr>))))"

text \<open>\<open>flushLocked\<close>: the copy of the buffer is handed to a new goroutine, which is only
  started here.\<close>

definition flushLocked :: "'w PostgresqlWriter \<Rightarrow> 'w PostgresqlWriter" where
  "flushLocked w =
     (if length (buffer w) = 0 then w
      else (let entries = buffer w in
            w\<lparr>buffer := [], goroutines := goroutines w @ [entries]\<rparr>))"

definition Flush :: "'w PostgresqlWriter \<Rightarrow> 'w PostgresqlWriter" where
  "Flush w = flushLocked w"

definition AddEntry :: "LogEntry \<Rightarrow> 'w PostgresqlWriter \<Rightarrow> 'w PostgresqlWriter" where
  "AddEntry entry w =
     (let w' = w\<lparr>buffer := buffer w @ [entry]\<rparr> in
      if int (length (buffer w')) \<ge> bufferSize w' then flushLocked w' else w')"

definition Log ::
  "runtime \<Rightarrow> string \<Rightarrow> string \<Rightarrow> any \<Rightarrow> LogField list \<Rightarrow> 'w PostgresqlWriter \<Rightarrow> 'w PostgresqlWriter" where
  "Log rt now level content fs w = AddEntry (buildEntry rt now level content fs) w"

text \<open>Appending a sequence of entries, one call of \<open>AddEntry\<close> after the other.\<close>

definition addEntries :: "LogEntry list \<Rightarrow> 'w PostgresqlWriter \<Rightarrow> 'w PostgresqlWriter" where
  "addEntries es w = foldl (\<lambda>w' e. AddEntry e w') w es"

text \<open>The arguments of the \<open>INSERT\<close> of one entry; \<open>now\<close> is what \<open>time.Now()\<close> returns
  at that moment.\<close>

definition insertArgs :: "runtime \<Rightarrow> time \<Rightarrow> LogEntry \<Rightarrow> sqlarg list" where
  "insertArgs rt now entry =
     (let fieldsJSON = json_Marshal rt (Fields entry);
          ts = (case time_Parse rt (Timestamp entry) of None \<Rightarrow> now | Some t \<Rightarrow> t)
      in [ArgTime ts, ArgString (Level entry), ArgString (Content entry),
          ArgString (LogType entry), ArgString (Duration entry), ArgString (Trace entry),
          ArgString (Span entry), ArgInt64Ptr (UserID entry), ArgBytes fieldsJSON])"

definition insertCall :: "runtime \<Rightarrow> string \<Rightarrow> time \<Rightarrow> LogEntry \<Rightarrow> sqlcall" where
  "insertCall rt tbl now entry = (insertQuery tbl, insertArgs rt now entry)"

text \<open>\<open>writeEntries\<close>: the error of \<open>Exec\<close> is assigned to the blank identifier;
  \<open>time_Now\<close> reads the clock of the world.\<close>

fun writeEntries ::
  "runtime \<Rightarrow> ('w \<Rightarrow> time) \<Rightarrow> LogEntry list \<Rightarrow> 'w PostgresqlWriter \<Rightarrow> 'w PostgresqlWriter" where
  "writeEntries rt time_Now [] w = w"
| "writeEntries rt time_Now (entry # entries) w =
     (case db_Exec (db w) (insertQuery (tableName w)) (insertArgs rt (time_Now (world w)) entry)
             (world w) of
        (err, s) \<Rightarrow> writeEntries rt time_Now entries (w\<lparr>world := s\<rparr>))"

text \<open>The scheduler runs the \<open>i\<close>-th started goroutine.\<close>

definition runGoroutine ::
  "runtime \<Rightarrow> ('w \<Rightarrow> time) \<Rightarrow> nat \<Rightarrow> 'w PostgresqlWriter \<Rightarrow> 'w PostgresqlWriter" where
  "runGoroutine rt time_Now i w =
     (if i < length (goroutines w)
      then writeEntries rt time_Now (goroutines w ! i)
             (w\<lparr>goroutines := take i (goroutines w) @ drop (Suc i) (goroutines w)\<rparr>)
      else w)"

text \<open>
  \<open>Close\<close>: closing a closed channel panics, and a process whose \<open>flushLoop\<close> has
  panicked has ended with that panic. \<open>wg.Wait()\<close> returns once \<open>flushLoop\<close> has taken the
  \<open>done\<close> case, called \<open>Flush\<close> and returned; the wait group counts no other goroutine.
  The result is the error of the backend's \<open>Close\<close> and the writer after it.
\<close>

definition Close :: "'w PostgresqlWriter \<Rightarrow> error + (dberror option \<times> 'w PostgresqlWriter)" where
  "Close w =
     (if done_closed w then Inl PanicCloseOfClosedChannel
      else if loop w = LoopPanicked then Inl PanicNewTicker
      else
        (let w1 = w\<lparr>done_closed := True\<rparr>;
             w2 = (if loop w1 = LoopRunning then (Flush w1)\<lparr>loop := LoopExited\<rparr> else w1)
         in case db_Close (db w2) (world w2) of
              (err, s) \<Rightarrow> Inr (err, w2\<lparr>world := s\<rparr>)))"

section \<open>A recording backend\<close>

text \<open>
  A backend that records every statement it is asked to execute (\<open>execs\<close>) and every
  statement it has stored (\<open>stored\<close>). Whether a statement fails is decided by \<open>fails\<close> from
  the statements seen so far and the statement itself; after \<open>Close\<close> every statement fails.
\<close>

record backend =
  execs :: "sqlcall list"
  stored :: "sqlcall list"
  closed :: bool
  clock :: time

definition recExec ::
  "(sqlcall list \<Rightarrow> sqlcall \<Rightarrow> bool) \<Rightarrow> string \<Rightarrow> sqlarg list \<Rightarrow> backend \<Rightarrow> dberror option \<times> backend" where
  "recExec fails q args b =
     (let b' = b\<lparr>execs := execs b @ [(q, args)]\<rparr> in
      if closed b then (Some ''closed'', b')
      else if fails (execs b) (q, args) then (Some ''exec failed'', b')
      else (None, b'\<lparr>stored := stored b @ [(q, args)]\<rparr>))"

definition recDB :: "(sqlcall list \<Rightarrow> sqlcall \<Rightarrow> bool) \<Rightarrow> bool \<Rightarrow> backend DBExecutor" where
  "recDB fails reachable =
     \<lparr>db_Exec = recExec fails,
      db_Ping = (\<lambda>b. (if reachable \<and> \<not> closed b then None else Some ''unreachable'', b)),
      db_Close = (\<lambda>b. (None, b\<lparr>closed := True\<rparr>))\<rparr>"

definition freshBackend :: backend where
  "freshBackend = \<lparr>execs = [], stored = [], closed = False, clock = 0\<rparr>"

text \<open>A failure rule: the backend rejects the statements whose third argument is the
  given content.\<close>

definition rejectContent :: "string \<Rightarrow> sqlcall \<Rightarrow> bool" where
  "rejectContent c call =
     (case snd call of t # l # ArgString c' # rest \<Rightarrow> c' = c | _ \<Rightarrow> False)"

text \<open>Sample data: an entry with the given content and no fields, and a running writer on
  a fresh recording backend that accepts every statement, with the given threshold.\<close>

definition sampleEntry :: "string \<Rightarrow> LogEntry" where
  "sampleEntry c = buildEntry nullRuntime ''2026-01-01T00:00:00Z'' ''info'' (AString c) []"

definition sampleWriter :: "int \<Rightarrow> backend PostgresqlWriter" where
  "sampleWriter n =
     \<lparr>db = recDB (\<lambda>h c. False) True, tableName = ''logs'', bufferSize = n,
      flushInterval = 5 * 1000000000, buffer = [], done_closed = False, loop = LoopRunning,
      world = freshBackend, goroutines = []\<rparr>"

text \<open>
  The writer that \<open>NewPostgresqlWriter\<close> returns for the accepting backend and a nil
  configuration, and the scenario of one \<open>Log\<close> call followed by \<open>Close\<close> on it, in the
  schedule in which the goroutine started by the final flush has not run when \<open>Close\<close>
  returns.
\<close>

definition startedWriter :: "backend PostgresqlWriter" where
  "startedWriter =
     (sampleWriter 100)
       \<lparr>world := freshBackend\<lparr>execs := provisioning ''logs'', stored := provisioning ''logs''\<rparr>\<rparr>"

definition closeScenario :: "error + (dberror option \<times> backend PostgresqlWriter)" where
  "closeScenario =
     Close (Log nullRuntime ''2026-01-01T00:00:00Z'' ''info'' (AString ''hello'') []
       startedWriter)"

section \<open>Properties of the field extraction\<close>

lemma find_snoc:
  "find P (xs @ [x]) = (case find P xs of None \<Rightarrow> (if P x then Some x else None) | Some y \<Rightarrow> Some y)"
  by (induction xs) auto

lemma extractFields_snoc:
  "extractFields rt (fs @ [f]) = extractField rt (extractFields rt fs) f"
  by (simp add: extractFields_def)

lemma extractFields_Nil:
  "extractFields rt [] = \<lparr>x_trace = [], x_span = [], x_duration = [], x_logType = [], x_userID = None\<rparr>"
  by (simp add: extractFields_def)

lemma x_trace_last:
  "x_trace (extractFields rt fs) =
     (case find (\<lambda>f. Key f = ''trace'') (rev fs) of None \<Rightarrow> [] | Some f \<Rightarrow> sprint_v rt (Value f))"
proof (induction fs rule: rev_induct)
  case Nil
  show ?case by (simp add: extractFields_Nil)
next
  case (snoc f fs)
  then show ?case
    by (simp add: extractFields_snoc extractField_def Let_def split: prod.split bool.split)
qed

lemma x_span_last:
  "x_span (extractFields rt fs) =
     (case find (\<lambda>f. Key f = ''span'') (rev fs) of None \<Rightarrow> [] | Some f \<Rightarrow> sprint_v rt (Value f))"
proof (induction fs rule: rev_induct)
  case Nil
  show ?case by (simp add: extractFields_Nil)
next
  case (snoc f fs)
  then show ?case
    by (simp add: extractFields_snoc extractField_def Let_def split: prod.split bool.split)
qed

lemma x_duration_last:
  "x_duration (extractFields rt fs) =
     (case find (\<lambda>f. Key f = ''duration'') (rev fs) of None \<Rightarrow> [] | Some f \<Rightarrow> sprint_v rt (Value f))"
proof (induction fs rule: rev_induct)
  case Nil
  show ?case by (simp add: extractFields_Nil)
next
  case (snoc f fs)
  then show ?case
    by (simp add: extractFields_snoc extractField_def Let_def split: prod.split bool.split)
qed

lemma x_logType_last:
  "x_logType (extractFields rt fs) =
     (case find (\<lambda>f. Key f = ''log_type'' \<or> Key f = ''logType'') (rev fs) of
        None \<Rightarrow> [] | Some f \<Rightarrow> sprint_v rt (Value f))"
proof (induction fs rule: rev_induct)
  case Nil
  show ?case by (simp add: extractFields_Nil)
next
  case (snoc f fs)
  then show ?case
    by (auto simp add: extractFields_snoc extractField_def Let_def split: prod.split bool.split)
qed

lemma x_userID_last:
  "x_userID (extractFields rt fs) =
     (case find (\<lambda>f. (Key f = ''user_id'' \<or> Key f = ''userId'') \<and> snd (toInt64 rt (Value f))) (rev fs) of
        None \<Rightarrow> None | Some f \<Rightarrow> Some (fst (toInt64 rt (Value f))))"
proof (induction fs rule: rev_induct)
  case Nil
  show ?case by (simp add: extractFields_Nil)
next
  case (snoc f fs)
  then show ?case
    by (auto simp add: extractFields_snoc extractField_def Let_def split: prod.split bool.split)
qed

lemma map_of_convertLoop:
  "map_of (convertLoop fs r) k =
     (if specialKey k then map_of r k
      else (case find (\<lambda>f. Key f = k) (rev fs) of None \<Rightarrow> map_of r k | Some f \<Rightarrow> Some (Value f)))"
proof (induction fs arbitrary: r)
  case Nil
  show ?case by simp
next
  case (Cons f fs)
  show ?case
    by (auto simp add: Cons.IH update_conv' find_snoc split: option.split)
qed

lemma convertLoop_Nil_iff:
  "convertLoop fs r = [] \<longleftrightarrow> r = [] \<and> list_all (\<lambda>f. specialKey (Key f)) fs"
proof (induction fs arbitrary: r)
  case Nil
  show ?case by simp
next
  case (Cons f fs)
  have "AList.update k v r \<noteq> []" for k v
    by (cases r) auto
  then show ?case by (simp add: Cons.IH)
qed

lemma distinct_convertLoop:
  "distinct (map fst r) \<Longrightarrow> distinct (map fst (convertLoop fs r))"
  by (induction fs arbitrary: r) (auto simp: distinct_update)

lemma toInt64_accepts:
  "snd (toInt64 rt v) \<longleftrightarrow>
     (case v of AInt _ \<Rightarrow> True | AInt32 _ \<Rightarrow> True | AInt64 _ \<Rightarrow> True | AUint _ \<Rightarrow> True
      | AUint32 _ \<Rightarrow> True | AUint64 _ \<Rightarrow> True | AFloat32 _ \<Rightarrow> True | AFloat64 _ \<Rightarrow> True
      | _ \<Rightarrow> False)"
  by (cases v) simp_all

text \<open>
  Claim C5. The claim reads: user-id coercion accepts any signed or unsigned integer or
  floating-point value. The type switch of \<open>toInt64\<close> has no case for \<open>int8\<close>, \<open>int16\<close>,
  \<open>uint8\<close>, \<open>uint16\<close> and \<open>uintptr\<close>: such a value falls into the default case, and a
  record built from \<open>Field("user_id", int16(b))\<close> has no user id.
\<close>

theorem toInt64_rejects_small_integers:
  "toInt64 rt (AInt8 a) = (0, False) \<and> toInt64 rt (AInt16 b) = (0, False)
   \<and> toInt64 rt (AUint8 c) = (0, False) \<and> toInt64 rt (AUint16 d) = (0, False)
   \<and> toInt64 rt (AUintptr e) = (0, False)
   \<and> UserID (buildEntry rt now level content [Field ''user_id'' (AInt16 b)]) = None"
  by (simp add: buildEntry_def extractFields_def extractField_def Field_def Let_def)

text \<open>
  Claim C6, as the code has it. For each well-known field the value of the last field
  with a matching key is the one in the built record (for the log type, the last field with
  key \<open>log_type\<close> or \<open>logType\<close>; for the user id, the last field with key \<open>user_id\<close> or
  \<open>userId\<close> whose value \<open>toInt64\<close> accepts); a field with no matching key keeps its zero
  value.
\<close>

theorem last_match_wins:
  "Trace (buildEntry rt now level content fs) =
     (case find (\<lambda>f. Key f = ''trace'') (rev fs) of
        None \<Rightarrow> [] | Some f \<Rightarrow> sprint_v rt (Value f))
   \<and> Span (buildEntry rt now level content fs) =
     (case find (\<lambda>f. Key f = ''span'') (rev fs) of
        None \<Rightarrow> [] | Some f \<Rightarrow> sprint_v rt (Value f))
   \<and> Duration (buildEntry rt now level content fs) =
     (case find (\<lambda>f. Key f = ''duration'') (rev fs) of
        None \<Rightarrow> [] | Some f \<Rightarrow> sprint_v rt (Value f))
   \<and> LogType (buildEntry rt now level content fs) =
     (case find (\<lambda>f. Key f = ''log_type'' \<or> Key f = ''logType'') (rev fs) of
        None \<Rightarrow> [] | Some f \<Rightarrow> sprint_v rt (Value f))
   \<and> UserID (buildEntry rt now level content fs) =
     (case find (\<lambda>f. (Key f = ''user_id'' \<or> Key f = ''userId'') \<and> snd (toInt64 rt (Value f)))
             (rev fs) of
        None \<Rightarrow> None | Some f \<Rightarrow> Some (fst (toInt64 rt (Value f))))"
  unfolding buildEntry_def Let_def
  by (simp add: x_trace_last x_span_last x_duration_last x_logType_last x_userID_last)

theorem last_match_wins_witness:
  "Trace (buildEntry nullRuntime ''t'' ''info'' (AString ''c'')
      [Field ''trace'' (AString ''first''), Field ''user_id'' (AInt 1),
       Field ''trace'' (AString ''second''), Field ''user_id'' (AString ''x'')]) = ''second''
   \<and> UserID (buildEntry nullRuntime ''t'' ''info'' (AString ''c'')
      [Field ''trace'' (AString ''first''), Field ''user_id'' (AInt 1),
       Field ''trace'' (AString ''second''), Field ''user_id'' (AString ''x'')]) = Some 1"
  using last_match_wins [of nullRuntime "''t''" "''info''" "AString ''c''"
      "[Field ''trace'' (AString ''first''), Field ''user_id'' (AInt 1),
        Field ''trace'' (AString ''second''), Field ''user_id'' (AString ''x'')]"]
  by (simp add: Field_def)

text \<open>Claim C6 as stated (the first occurrence wins) fails on two \<open>trace\<close> fields.\<close>

theorem first_match_wins_counterexample:
  "Trace (buildEntry nullRuntime ''t'' ''info'' (AString ''c'')
      [Field ''trace'' (AString ''first''), Field ''trace'' (AString ''second'')]) \<noteq> ''first''"
  by (simp add: buildEntry_def extractFields_def extractField_def Field_def Let_def)

text \<open>
  Claim C7. The residual mapping of the record built by \<open>Log\<close> is the result of
  \<open>convertLogFields\<close>. It is nil exactly when every key of the field list is a well-known
  key (the empty list included); otherwise it is a non-empty mapping with one pair per key, in
  which no well-known key is bound and every other key is bound to the value of its last
  occurrence in the field list.
\<close>

theorem residual_excludes_special_keys:
  "Fields (buildEntry rt now level content fs) = convertLogFields fs \<and>
   (case convertLogFields fs of
      None \<Rightarrow> list_all (\<lambda>f. specialKey (Key f)) fs
    | Some m \<Rightarrow> m \<noteq> [] \<and> \<not> list_all (\<lambda>f. specialKey (Key f)) fs \<and> distinct (map fst m) \<and>
        (\<forall>k. map_of m k =
          (if specialKey k then None else map_option Value (find (\<lambda>f. Key f = k) (rev fs)))))"
proof -
  have a: "Fields (buildEntry rt now level content fs) = convertLogFields fs"
    by (simp add: buildEntry_def Let_def)
  have b: "map_of (convertLoop fs []) k =
      (if specialKey k then None else map_option Value (find (\<lambda>f. Key f = k) (rev fs)))" for k
    by (simp add: map_of_convertLoop split: option.split)
  have c: "distinct (map fst (convertLoop fs []))"
    by (rule distinct_convertLoop) simp
  show ?thesis
    using a b c by (cases fs) (auto simp: convertLogFields_def Let_def convertLoop_Nil_iff)
qed

theorem residual_excludes_special_keys_witness:
  "Fields (buildEntry nullRuntime ''t'' ''info'' (AString ''c'')
      [Field ''trace'' (AString ''abc''), Field ''status'' (AInt 200), Field ''userId'' (AInt 7)])
     = Some [(''status'', AInt 200)]
   \<and> map_of [(''status'', AInt 200)] ''trace'' = None
   \<and> map_of [(''status'', AInt 200)] ''userId'' = None
   \<and> Fields (buildEntry nullRuntime ''t'' ''info'' (AString ''c'')
      [Field ''trace'' (AString ''abc''), Field ''userId'' (AInt 7)]) = None"
proof -
  have a: "convertLogFields
      [Field ''trace'' (AString ''abc''), Field ''status'' (AInt 200), Field ''userId'' (AInt 7)]
     = Some [(''status'', AInt 200)]"
    by (simp add: convertLogFields_def Field_def specialKey_def)
  have b: "convertLogFields [Field ''trace'' (AString ''abc''), Field ''userId'' (AInt 7)] = None"
    by (simp add: convertLogFields_def Field_def specialKey_def)
  note t1 = residual_excludes_special_keys [of nullRuntime "''t''" "''info''" "AString ''c''"
      "[Field ''trace'' (AString ''abc''), Field ''status'' (AInt 200), Field ''userId'' (AInt 7)]"]
  note t2 = residual_excludes_special_keys [of nullRuntime "''t''" "''info''" "AString ''c''"
      "[Field ''trace'' (AString ''abc''), Field ''userId'' (AInt 7)]"]
  show ?thesis using t1 t2 by (simp add: a b)
qed

section \<open>Properties of the buffer\<close>

lemma flushLocked_nonempty:
  "buffer w \<noteq> [] \<Longrightarrow> flushLocked w = w\<lparr>buffer := [], goroutines := goroutines w @ [buffer w]\<rparr>"
  by (simp add: flushLocked_def Let_def)

lemma flushLocked_empty: "buffer w = [] \<Longrightarrow> flushLocked w = w"
  by (simp add: flushLocked_def)

lemma AddEntry_below:
  "int (length (buffer w)) + 1 < bufferSize w \<Longrightarrow> AddEntry e w = w\<lparr>buffer := buffer w @ [e]\<rparr>"
  by (simp add: AddEntry_def Let_def)

lemma AddEntry_reach:
  "bufferSize w \<le> int (length (buffer w)) + 1 \<Longrightarrow>
   AddEntry e w = w\<lparr>buffer := [], goroutines := goroutines w @ [buffer w @ [e]]\<rparr>"
  by (simp add: AddEntry_def Let_def flushLocked_def)

lemma addEntries_below:
  "int (length (buffer w) + length es) < bufferSize w \<Longrightarrow>
   addEntries es w = w\<lparr>buffer := buffer w @ es\<rparr>"
proof (induction es arbitrary: w)
  case Nil
  show ?case by (simp add: addEntries_def)
next
  case (Cons e es)
  have step: "AddEntry e w = w\<lparr>buffer := buffer w @ [e]\<rparr>"
    using Cons.prems by (intro AddEntry_below) simp
  have "addEntries (e # es) w = addEntries es (AddEntry e w)"
    by (simp add: addEntries_def)
  also have "\<dots> = addEntries es (w\<lparr>buffer := buffer w @ [e]\<rparr>)"
    by (simp only: step)
  also have "\<dots> = (w\<lparr>buffer := buffer w @ [e]\<rparr>)\<lparr>buffer := buffer (w\<lparr>buffer := buffer w @ [e]\<rparr>) @ es\<rparr>"
    using Cons.prems by (intro Cons.IH) simp
  finally show ?case by simp
qed

lemma addEntries_snoc: "addEntries (es @ [e]) w = AddEntry e (addEntries es w)"
  by (simp add: addEntries_def)

lemma addEntries_exact:
  assumes "buffer w = []" and "0 < bufferSize w" and "int (length es) = bufferSize w"
  shows "addEntries es w = w\<lparr>goroutines := goroutines w @ [es]\<rparr>"
proof -
  from assms have "es \<noteq> []" by auto
  then obtain es' e where es: "es = es' @ [e]"
    by (metis rev_exhaust)
  have pre: "addEntries es' w = w\<lparr>buffer := es'\<rparr>"
    using assms es addEntries_below [of w es'] by simp
  have "addEntries es w = AddEntry e (w\<lparr>buffer := es'\<rparr>)"
    by (simp add: es addEntries_snoc pre)
  also have "\<dots> = (w\<lparr>buffer := es'\<rparr>)\<lparr>buffer := [], goroutines := goroutines w @ [es' @ [e]]\<rparr>"
    using assms es AddEntry_reach [of "w\<lparr>buffer := es'\<rparr>" e] by simp
  finally show ?thesis using assms es by simp
qed

text \<open>
  Claim C2. On a writer with threshold \<open>T > 0\<close> and an empty buffer, appending exactly \<open>T\<close>
  entries leaves the writer with an empty buffer and exactly one more started batch, which
  holds the \<open>T\<close> entries in the order of the appends: the drain happens inside the \<open>T\<close>-th
  \<open>AddEntry\<close>. Appending fewer than \<open>T\<close> entries (\<open>T - 1\<close> among them) starts no batch and
  leaves the entries in the buffer.
\<close>

theorem threshold_triggers_one_drain:
  assumes "0 < bufferSize w" and "buffer w = []"
  shows "(int (length es) = bufferSize w \<longrightarrow>
            addEntries es w = w\<lparr>goroutines := goroutines w @ [es]\<rparr>
          \<and> buffer (addEntries es w) = []
          \<and> length (goroutines (addEntries es w)) = length (goroutines w) + 1)
       \<and> (int (length es) < bufferSize w \<longrightarrow>
            addEntries es w = w\<lparr>buffer := es\<rparr>
          \<and> goroutines (addEntries es w) = goroutines w)"
proof (intro conjI impI)
  assume len: "int (length es) = bufferSize w"
  show eq: "addEntries es w = w\<lparr>goroutines := goroutines w @ [es]\<rparr>"
    using assms len by (intro addEntries_exact) simp_all
  show "buffer (addEntries es w) = []"
    by (simp add: eq assms)
  show "length (goroutines (addEntries es w)) = length (goroutines w) + 1"
    by (simp add: eq)
next
  assume len: "int (length es) < bufferSize w"
  show eq: "addEntries es w = w\<lparr>buffer := es\<rparr>"
    using assms len addEntries_below [of w es] by simp
  show "goroutines (addEntries es w) = goroutines w"
    by (simp add: eq)
qed

theorem threshold_triggers_one_drain_witness:
  "0 < bufferSize (sampleWriter 3) \<and> buffer (sampleWriter 3) = []
   \<and> int (length [sampleEntry ''a'', sampleEntry ''b'', sampleEntry ''c'']) = bufferSize (sampleWriter 3)
   \<and> int (length [sampleEntry ''a'', sampleEntry ''b'']) < bufferSize (sampleWriter 3)
   \<and> goroutines (addEntries [sampleEntry ''a'', sampleEntry ''b'', sampleEntry ''c''] (sampleWriter 3))
       = [[sampleEntry ''a'', sampleEntry ''b'', sampleEntry ''c'']]
   \<and> buffer (addEntries [sampleEntry ''a'', sampleEntry ''b'', sampleEntry ''c''] (sampleWriter 3)) = []
   \<and> buffer (addEntries [sampleEntry ''a'', sampleEntry ''b''] (sampleWriter 3))
       = [sampleEntry ''a'', sampleEntry ''b'']
   \<and> goroutines (addEntries [sampleEntry ''a'', sampleEntry ''b''] (sampleWriter 3)) = []"
proof -
  have h1: "0 < bufferSize (sampleWriter 3)" and h2: "buffer (sampleWriter 3) = []"
    and g: "goroutines (sampleWriter 3) = []" and b: "bufferSize (sampleWriter 3) = 3"
    by (simp_all add: sampleWriter_def)
  note t3 = threshold_triggers_one_drain [OF h1 h2, of "[sampleEntry ''a'', sampleEntry ''b'', sampleEntry ''c'']"]
  note t2 = threshold_triggers_one_drain [OF h1 h2, of "[sampleEntry ''a'', sampleEntry ''b'']"]
  show ?thesis using t3 t2 by (simp add: g b h2)
qed


lemma flush_after_append:
  assumes "buffer w = []" and "es \<noteq> []" and "int (length es) \<le> bufferSize w"
  shows "Flush (addEntries es w) = w\<lparr>goroutines := goroutines w @ [es]\<rparr>"
proof (cases "int (length es) = bufferSize w")
  case True
  have pos: "0 < bufferSize w" using assms(2) True by (cases es) auto
  have "addEntries es w = w\<lparr>goroutines := goroutines w @ [es]\<rparr>"
    using assms(1) pos True by (rule addEntries_exact)
  then show ?thesis using assms(1) by (simp add: Flush_def flushLocked_def)
next
  case False
  then have "int (length es) < bufferSize w" using assms(3) by simp
  then have "addEntries es w = w\<lparr>buffer := es\<rparr>"
    using assms(1) addEntries_below [of w es] by simp
  then show ?thesis using assms(1,2) by (simp add: Flush_def flushLocked_def Let_def)
qed

lemma runGoroutine_last:
  "runGoroutine rt now (length gs) (w\<lparr>goroutines := gs @ [es]\<rparr>) =
     writeEntries rt now es (w\<lparr>goroutines := gs\<rparr>)"
  by (simp add: runGoroutine_def)

section \<open>Properties of the persist step\<close>

lemma writeEntries_fields:
  "db (writeEntries rt now es w) = db w \<and> tableName (writeEntries rt now es w) = tableName w
   \<and> buffer (writeEntries rt now es w) = buffer w
   \<and> goroutines (writeEntries rt now es w) = goroutines w"
  by (induction es arbitrary: w) (auto split: prod.split)

lemma recExec_execs: "execs (snd (recExec fails q args b)) = execs b @ [(q, args)]"
  by (simp add: recExec_def Let_def)

lemma recExec_clock: "clock (snd (recExec fails q args b)) = clock b"
  by (simp add: recExec_def Let_def)

lemma recExec_closed: "closed (snd (recExec fails q args b)) = closed b"
  by (simp add: recExec_def Let_def)

lemma recExec_stored:
  "\<not> closed b \<Longrightarrow>
   stored (snd (recExec (\<lambda>h. bad) q args b)) = stored b @ (if bad (q, args) then [] else [(q, args)])"
  by (simp add: recExec_def Let_def)

lemma writeEntries_rec_step:
  "db w = recDB fails r \<Longrightarrow>
   writeEntries rt clock (e # es) w =
     writeEntries rt clock es
       (w\<lparr>world := snd (recExec fails (insertQuery (tableName w))
                           (insertArgs rt (clock (world w)) e) (world w))\<rparr>)"
  by (simp add: recDB_def split: prod.split)

lemma writeEntries_rec_execs:
  "db w = recDB fails r \<Longrightarrow>
   execs (world (writeEntries rt clock es w)) =
     execs (world w) @ map (insertCall rt (tableName w) (clock (world w))) es
   \<and> clock (world (writeEntries rt clock es w)) = clock (world w)
   \<and> closed (world (writeEntries rt clock es w)) = closed (world w)"
proof (induction es arbitrary: w)
  case Nil
  show ?case by simp
next
  case (Cons e es)
  let ?w = "w\<lparr>world := snd (recExec fails (insertQuery (tableName w))
                           (insertArgs rt (clock (world w)) e) (world w))\<rparr>"
  have "db ?w = recDB fails r" using Cons.prems by simp
  from Cons.IH [OF this] show ?case
    by (simp add: writeEntries_rec_step [OF Cons.prems] recExec_execs recExec_clock
        recExec_closed insertCall_def del: writeEntries.simps)
qed

lemma writeEntries_rec_stored:
  "db w = recDB (\<lambda>h. bad) r \<Longrightarrow> \<not> closed (world w) \<Longrightarrow>
   stored (world (writeEntries rt clock es w)) =
     stored (world w) @
       filter (\<lambda>c. \<not> bad c) (map (insertCall rt (tableName w) (clock (world w))) es)"
proof (induction es arbitrary: w)
  case Nil
  show ?case by simp
next
  case (Cons e es)
  let ?w = "w\<lparr>world := snd (recExec (\<lambda>h. bad) (insertQuery (tableName w))
                           (insertArgs rt (clock (world w)) e) (world w))\<rparr>"
  have d: "db ?w = recDB (\<lambda>h. bad) r" using Cons.prems by simp
  have c: "\<not> closed (world ?w)" using Cons.prems by (simp add: recExec_closed)
  from Cons.IH [OF d c] show ?case
    using Cons.prems(2)
    by (simp add: writeEntries_rec_step [OF Cons.prems(1)] recExec_stored recExec_clock
        insertCall_def del: writeEntries.simps)
qed

lemma insertArgs_shape:
  "length (insertArgs rt now e) = 9
   \<and> hd (insertArgs rt now e) =
       ArgTime (case time_Parse rt (Timestamp e) of None \<Rightarrow> now | Some t \<Rightarrow> t)
   \<and> last (insertArgs rt now e) = ArgBytes (json_Marshal rt (Fields e))"
  by (simp add: insertArgs_def Let_def)

text \<open>
  Claim C3. \<open>writeEntries\<close> returns no error. On the recording backend, whatever rule
  decides which statements fail, it executes one \<open>INSERT\<close> for every entry of the batch, in
  the order of the batch; when the backend rejects some of the statements, all the others
  are stored, those after a rejected one included. When \<open>json.Marshal\<close> fails on the
  residual mapping of an entry, the entry's \<open>INSERT\<close> still has its nine arguments, the last
  of which is the nil byte slice.
\<close>

theorem persist_attempts_every_record:
  "(db w = recDB fails r \<longrightarrow>
      execs (world (writeEntries rt clock es w)) =
        execs (world w) @ map (insertCall rt (tableName w) (clock (world w))) es)
   \<and> (db w = recDB (\<lambda>h. bad) r \<and> \<not> closed (world w) \<longrightarrow>
      stored (world (writeEntries rt clock es w)) =
        stored (world w) @
          filter (\<lambda>c. \<not> bad c) (map (insertCall rt (tableName w) (clock (world w))) es))
   \<and> (json_Marshal rt (Fields e) = None \<longrightarrow>
      length (insertArgs rt now e) = 9 \<and> last (insertArgs rt now e) = ArgBytes None)"
  using writeEntries_rec_execs [of w fails r rt es] writeEntries_rec_stored [of w bad r rt es]
    insertArgs_shape [of rt now e]
  by simp

theorem persist_attempts_every_record_witness:
  "db ((sampleWriter 3)\<lparr>db := recDB (\<lambda>h. rejectContent ''b'') True\<rparr>)
      = recDB (\<lambda>h. rejectContent ''b'') True
   \<and> \<not> closed (world ((sampleWriter 3)\<lparr>db := recDB (\<lambda>h. rejectContent ''b'') True\<rparr>))
   \<and> json_Marshal nullRuntime (Fields (sampleEntry ''a'')) = None
   \<and> execs (world (writeEntries nullRuntime clock
          [sampleEntry ''a'', sampleEntry ''b'', sampleEntry ''c'']
          ((sampleWriter 3)\<lparr>db := recDB (\<lambda>h. rejectContent ''b'') True\<rparr>)))
       = [insertCall nullRuntime ''logs'' 0 (sampleEntry ''a''),
          insertCall nullRuntime ''logs'' 0 (sampleEntry ''b''),
          insertCall nullRuntime ''logs'' 0 (sampleEntry ''c'')]
   \<and> stored (world (writeEntries nullRuntime clock
          [sampleEntry ''a'', sampleEntry ''b'', sampleEntry ''c'']
          ((sampleWriter 3)\<lparr>db := recDB (\<lambda>h. rejectContent ''b'') True\<rparr>)))
       = [insertCall nullRuntime ''logs'' 0 (sampleEntry ''a''),
          insertCall nullRuntime ''logs'' 0 (sampleEntry ''c'')]
   \<and> last (insertArgs nullRuntime 0 (sampleEntry ''a'')) = ArgBytes None"
proof -
  let ?w = "(sampleWriter 3)\<lparr>db := recDB (\<lambda>h. rejectContent ''b'') True\<rparr>"
  let ?es = "[sampleEntry ''a'', sampleEntry ''b'', sampleEntry ''c'']"
  have h1: "db ?w = recDB (\<lambda>h. rejectContent ''b'') True" by simp
  have h2: "\<not> closed (world ?w)" by (simp add: sampleWriter_def freshBackend_def)
  have h3: "json_Marshal nullRuntime (Fields (sampleEntry ''a'')) = None"
    by (simp add: nullRuntime_def)
  have w: "tableName (sampleWriter 3) = ''logs''" "clock (world (sampleWriter 3)) = 0"
    "execs (world (sampleWriter 3)) = []" "stored (world (sampleWriter 3)) = []"
    by (simp_all add: sampleWriter_def freshBackend_def)
  have r: "\<not> rejectContent ''b'' (insertCall nullRuntime ''logs'' 0 (sampleEntry ''a''))"
    "rejectContent ''b'' (insertCall nullRuntime ''logs'' 0 (sampleEntry ''b''))"
    "\<not> rejectContent ''b'' (insertCall nullRuntime ''logs'' 0 (sampleEntry ''c''))"
    by (simp_all add: rejectContent_def insertCall_def insertArgs_def sampleEntry_def
        buildEntry_def Let_def)
  note t = persist_attempts_every_record [of ?w "\<lambda>h. rejectContent ''b''" True nullRuntime ?es
      "rejectContent ''b''" "sampleEntry ''a''" 0]
  show ?thesis using t h1 h2 h3 by (simp add: w r del: writeEntries.simps)
qed

text \<open>
  Claim C9. On a backend that accepts every statement, entries appended to an empty buffer
  (at most as many as the threshold) are handed over as one batch in the order of the
  appends, whether the threshold or a call of \<open>Flush\<close> drains the buffer, and the goroutine
  of that batch stores one row per entry in that same order.
\<close>

theorem batch_order_preserved:
  assumes "db w = recDB (\<lambda>h c. False) r" and "\<not> closed (world w)"
    and "buffer w = []" and "es \<noteq> []" and "int (length es) \<le> bufferSize w"
  shows "goroutines (Flush (addEntries es w)) = goroutines w @ [es]
     \<and> stored (world (runGoroutine rt clock (length (goroutines w)) (Flush (addEntries es w))))
         = stored (world w) @ map (insertCall rt (tableName w) (clock (world w))) es"
proof -
  have f: "Flush (addEntries es w) = w\<lparr>goroutines := goroutines w @ [es]\<rparr>"
    using assms(3-5) by (rule flush_after_append)
  have r: "runGoroutine rt clock (length (goroutines w)) (w\<lparr>goroutines := goroutines w @ [es]\<rparr>)
      = writeEntries rt clock es w"
    by (simp add: runGoroutine_last)
  have "stored (world (writeEntries rt clock es w))
      = stored (world w) @
          filter (\<lambda>c. \<not> False) (map (insertCall rt (tableName w) (clock (world w))) es)"
    using assms(1,2) by (rule writeEntries_rec_stored)
  then show ?thesis by (simp add: f r)
qed

theorem batch_order_preserved_witness:
  "db (sampleWriter 5) = recDB (\<lambda>h c. False) True \<and> \<not> closed (world (sampleWriter 5))
   \<and> buffer (sampleWriter 5) = []
   \<and> [sampleEntry ''A'', sampleEntry ''B'', sampleEntry ''C''] \<noteq> []
   \<and> int (length [sampleEntry ''A'', sampleEntry ''B'', sampleEntry ''C'']) \<le> bufferSize (sampleWriter 5)
   \<and> stored (world (runGoroutine nullRuntime clock 0
        (Flush (addEntries [sampleEntry ''A'', sampleEntry ''B'', sampleEntry ''C''] (sampleWriter 5)))))
       = [insertCall nullRuntime ''logs'' 0 (sampleEntry ''A''),
          insertCall nullRuntime ''logs'' 0 (sampleEntry ''B''),
          insertCall nullRuntime ''logs'' 0 (sampleEntry ''C'')]"
proof -
  let ?es = "[sampleEntry ''A'', sampleEntry ''B'', sampleEntry ''C'']"
  have h1: "db (sampleWriter 5) = recDB (\<lambda>h c. False) True"
    and h2: "\<not> closed (world (sampleWriter 5))" and h3: "buffer (sampleWriter 5) = []"
    and h5: "int (length ?es) \<le> bufferSize (sampleWriter 5)"
    by (simp_all add: sampleWriter_def freshBackend_def)
  have h4: "?es \<noteq> []" by simp
  have w: "tableName (sampleWriter 5) = ''logs''" "clock (world (sampleWriter 5)) = 0"
    "stored (world (sampleWriter 5)) = []" "goroutines (sampleWriter 5) = []"
    by (simp_all add: sampleWriter_def freshBackend_def)
  note t = batch_order_preserved [OF h1 h2 h3 h4 h5, of nullRuntime]
  show ?thesis using t h1 h2 h3 h5 by (simp add: w)
qed

text \<open>
  Claim C10. For an entry of the batch whose timestamp \<open>time.Parse\<close> rejects, the persist
  step still executes the entry's \<open>INSERT\<close>, at the entry's position in the batch, and the
  first argument of that statement is the current time of the clock.
\<close>

theorem unparseable_timestamp_uses_now:
  assumes "db w = recDB fails r" and "i < length es"
    and "time_Parse rt (Timestamp (es ! i)) = None"
  shows "execs (world (writeEntries rt clock es w)) ! (length (execs (world w)) + i)
       = insertCall rt (tableName w) (clock (world w)) (es ! i)
     \<and> hd (snd (insertCall rt (tableName w) (clock (world w)) (es ! i)))
       = ArgTime (clock (world w))
     \<and> length (execs (world (writeEntries rt clock es w)))
       = length (execs (world w)) + length es"
proof -
  have e: "execs (world (writeEntries rt clock es w)) =
      execs (world w) @ map (insertCall rt (tableName w) (clock (world w))) es"
    using writeEntries_rec_execs [OF assms(1)] by simp
  have h: "hd (insertArgs rt (clock (world w)) (es ! i)) = ArgTime (clock (world w))"
    using insertArgs_shape [of rt "clock (world w)" "es ! i"] assms(3) by simp
  show ?thesis using assms(2) by (simp add: e h insertCall_def nth_append)
qed

theorem unparseable_timestamp_uses_now_witness:
  "db ((sampleWriter 3)\<lparr>world := freshBackend\<lparr>clock := 42\<rparr>\<rparr>) = recDB (\<lambda>h c. False) True
   \<and> (0::nat) < length [(sampleEntry ''a'')\<lparr>Timestamp := ''yesterday''\<rparr>]
   \<and> time_Parse nullRuntime (Timestamp ([(sampleEntry ''a'')\<lparr>Timestamp := ''yesterday''\<rparr>] ! 0)) = None
   \<and> execs (world (writeEntries nullRuntime clock [(sampleEntry ''a'')\<lparr>Timestamp := ''yesterday''\<rparr>]
        ((sampleWriter 3)\<lparr>world := freshBackend\<lparr>clock := 42\<rparr>\<rparr>))) ! 0
       = (insertQuery ''logs'',
          [ArgTime 42, ArgString ''info'', ArgString ''a'', ArgString [], ArgString [],
           ArgString [], ArgString [], ArgInt64Ptr None, ArgBytes None])"
proof -
  let ?w = "(sampleWriter 3)\<lparr>world := freshBackend\<lparr>clock := 42\<rparr>\<rparr>"
  let ?es = "[(sampleEntry ''a'')\<lparr>Timestamp := ''yesterday''\<rparr>]"
  have h1: "db ?w = recDB (\<lambda>h c. False) True" by (simp add: sampleWriter_def)
  have h2: "0 < length ?es" by simp
  have h3: "time_Parse nullRuntime (Timestamp (?es ! 0)) = None" by (simp add: nullRuntime_def)
  have w: "tableName (sampleWriter 3) = ''logs''" "execs freshBackend = []"
    by (simp_all add: sampleWriter_def freshBackend_def)
  have c: "insertCall nullRuntime ''logs'' 42 ((sampleEntry ''a'')\<lparr>Timestamp := ''yesterday''\<rparr>)
      = (insertQuery ''logs'',
          [ArgTime 42, ArgString ''info'', ArgString ''a'', ArgString [], ArgString [],
           ArgString [], ArgString [], ArgInt64Ptr None, ArgBytes None])"
    by (simp add: insertCall_def insertArgs_def sampleEntry_def buildEntry_def Let_def
        nullRuntime_def extractFields_def convertLogFields_def)
  note t = unparseable_timestamp_uses_now [OF h1 h2 h3]
  show ?thesis using t h1 h3 by (simp add: w c del: writeEntries.simps)
qed

section \<open>Properties of construction and shutdown\<close>

lemma ensureTable_fields:
  "db (snd (ensureTable w)) = db w \<and> tableName (snd (ensureTable w)) = tableName w
   \<and> bufferSize (snd (ensureTable w)) = bufferSize w
   \<and> flushInterval (snd (ensureTable w)) = flushInterval w
   \<and> buffer (snd (ensureTable w)) = buffer w \<and> goroutines (snd (ensureTable w)) = goroutines w"
  by (simp add: ensureTable_def split: prod.split option.split)

lemma NewPostgresqlWriter_Inr:
  assumes "NewPostgresqlWriter dbo config s = Inr w"
  shows "\<exists>d s1. dbo = Some d \<and> db_Ping d s = (None, s1)
           \<and> 0 \<le> BufferSize (effectiveConfig config)
           \<and> fst (ensureTable (initWriter d (effectiveConfig config) s1)) = None
           \<and> w = (snd (ensureTable (initWriter d (effectiveConfig config) s1)))
                   \<lparr>loop := (if FlushInterval (effectiveConfig config) \<le> 0 then LoopPanicked
                             else LoopRunning)\<rparr>"
proof (cases dbo)
  case None
  with assms show ?thesis by (simp add: NewPostgresqlWriter_def)
next
  case (Some d)
  obtain pe s1 where p: "db_Ping d s = (pe, s1)" by (cases "db_Ping d s")
  obtain r w' where e: "ensureTable (initWriter d (effectiveConfig config) s1) = (r, w')"
    by (cases "ensureTable (initWriter d (effectiveConfig config) s1)")
  have fi: "flushInterval w' = FlushInterval (effectiveConfig config)"
    using ensureTable_fields [of "initWriter d (effectiveConfig config) s1"] e
    by (simp add: initWriter_def)
  from assms Some p e fi show ?thesis
    by (auto simp: NewPostgresqlWriter_def Let_def split: option.splits if_splits)
qed

lemma execIndexes_rec_ok:
  "fst (execIndexes (recDB fails r) qs b) = None \<Longrightarrow>
   execs (snd (execIndexes (recDB fails r) qs b)) = execs b @ map (\<lambda>q. (q, [])) qs"
proof (induction qs arbitrary: b)
  case Nil
  show ?case by simp
next
  case (Cons q qs)
  obtain e b' where x: "recExec fails q [] b = (e, b')" by (cases "recExec fails q [] b")
  have b': "execs b' = execs b @ [(q, [])]"
    using recExec_execs [of fails q "[]" b] x by simp
  show ?case
  proof (cases e)
    case None
    with Cons.prems x have "fst (execIndexes (recDB fails r) qs b') = None"
      by (simp add: recDB_def)
    from Cons.IH [OF this] None x show ?thesis
      by (simp add: recDB_def b')
  next
    case (Some a)
    with Cons.prems x show ?thesis by (simp add: recDB_def)
  qed
qed

lemma ensureTable_rec_ok:
  assumes "db w = recDB fails r" and "fst (ensureTable w) = None"
  shows "execs (world (snd (ensureTable w))) = execs (world w) @ provisioning (tableName w)"
proof -
  obtain e b' where x: "recExec fails (createTableQuery (tableName w)) [] (world w) = (e, b')"
    by (cases "recExec fails (createTableQuery (tableName w)) [] (world w)")
  have b': "execs b' = execs (world w) @ [(createTableQuery (tableName w), [])]"
    using recExec_execs [of fails "createTableQuery (tableName w)" "[]" "world w"] x by simp
  show ?thesis
  proof (cases e)
    case None
    obtain e2 b2 where y: "execIndexes (recDB fails r) (indexes (tableName w)) b' = (e2, b2)"
      by (cases "execIndexes (recDB fails r) (indexes (tableName w)) b'")
    have d: "db_Exec (recDB fails r) (createTableQuery (tableName w)) [] (world w) = (None, b')"
      using x None by (simp add: recDB_def)
    have et: "ensureTable w = (e2, w\<lparr>world := b2\<rparr>)"
      by (simp add: ensureTable_def assms(1) d y)
    from assms(2) have "e2 = None"
      by (simp add: et)
    then have "execs b2 = execs b' @ map (\<lambda>q. (q, [])) (indexes (tableName w))"
      using execIndexes_rec_ok [of fails r "indexes (tableName w)" b'] y by simp
    then show ?thesis
      by (simp add: et b' provisioning_def)
  next
    case (Some a)
    with assms x show ?thesis by (simp add: ensureTable_def recDB_def)
  qed
qed

lemma NewPostgresqlWriter_rec_execs:
  assumes "NewPostgresqlWriter (Some (recDB fails r)) config b = Inr w"
  shows "execs (world w) = execs b @ provisioning (TableName (effectiveConfig config))"
proof -
  from NewPostgresqlWriter_Inr [OF assms] obtain d s1 where
    d: "Some (recDB fails r) = Some d" and p: "db_Ping d b = (None, s1)"
    and e: "fst (ensureTable (initWriter d (effectiveConfig config) s1)) = None"
    and w: "w = (snd (ensureTable (initWriter d (effectiveConfig config) s1)))
                   \<lparr>loop := (if FlushInterval (effectiveConfig config) \<le> 0 then LoopPanicked
                             else LoopRunning)\<rparr>"
    by blast
  from d have d': "d = recDB fails r" by simp
  from p have s1: "s1 = b" by (simp add: d' recDB_def)
  have "db (initWriter d (effectiveConfig config) s1) = recDB fails r"
    by (simp add: initWriter_def d')
  from ensureTable_rec_ok [OF this e] show ?thesis
    by (simp add: w s1 initWriter_def)
qed

lemma NewPostgresqlWriter_started:
  "NewPostgresqlWriter (Some (recDB (\<lambda>h c. False) True)) None freshBackend = Inr startedWriter"
  by (simp add: NewPostgresqlWriter_def ensureTable_def initWriter_def effectiveConfig_def
      DefaultPostgresConfig_def recDB_def recExec_def freshBackend_def Let_def indexes_def
      startedWriter_def sampleWriter_def provisioning_def)

text \<open>
  Claim C8. Without a backend executor the constructor returns an error. With one, it
  first pings the backend and returns an error when the ping fails; it then runs
  \<open>ensureTable\<close> and returns an error when that fails. In each of these cases the result is
  an error and no writer. A writer is returned only after a successful ping and a successful
  \<open>ensureTable\<close>, and then the recording backend has been asked to execute the
  \<open>CREATE TABLE IF NOT EXISTS\<close> statement and the five \<open>CREATE INDEX IF NOT EXISTS\<close>
  statements, in this order.
\<close>

theorem construction_fails_without_backend:
  "NewPostgresqlWriter None config s = Inl (ErrDbRequired, s)
   \<and> (db_Ping d s = (Some err, s1) \<longrightarrow>
        NewPostgresqlWriter (Some d) config s = Inl (ErrPing err, s1))
   \<and> (db_Ping d s = (None, s1) \<and> 0 \<le> BufferSize (effectiveConfig config)
        \<and> fst (ensureTable (initWriter d (effectiveConfig config) s1)) = Some err \<longrightarrow>
        NewPostgresqlWriter (Some d) config s =
          Inl (ErrEnsureTable err, world (snd (ensureTable (initWriter d (effectiveConfig config) s1)))))
   \<and> (NewPostgresqlWriter dbo config s = Inr w \<longrightarrow>
        (\<exists>d' s'. dbo = Some d' \<and> db_Ping d' s = (None, s')
           \<and> fst (ensureTable (initWriter d' (effectiveConfig config) s')) = None
           \<and> world w = world (snd (ensureTable (initWriter d' (effectiveConfig config) s')))))
   \<and> (NewPostgresqlWriter (Some (recDB fails r)) config b = Inr w \<longrightarrow>
        execs (world w) = execs b @ provisioning (TableName (effectiveConfig config)))"
proof (intro conjI impI)
  show "NewPostgresqlWriter None config s = Inl (ErrDbRequired, s)"
    by (simp add: NewPostgresqlWriter_def)
next
  assume "db_Ping d s = (Some err, s1)"
  then show "NewPostgresqlWriter (Some d) config s = Inl (ErrPing err, s1)"
    by (simp add: NewPostgresqlWriter_def Let_def)
next
  assume "db_Ping d s = (None, s1) \<and> 0 \<le> BufferSize (effectiveConfig config)
        \<and> fst (ensureTable (initWriter d (effectiveConfig config) s1)) = Some err"
  then show "NewPostgresqlWriter (Some d) config s =
      Inl (ErrEnsureTable err, world (snd (ensureTable (initWriter d (effectiveConfig config) s1))))"
    by (cases "ensureTable (initWriter d (effectiveConfig config) s1)")
      (simp add: NewPostgresqlWriter_def Let_def)
next
  assume "NewPostgresqlWriter dbo config s = Inr w"
  from NewPostgresqlWriter_Inr [OF this]
  show "\<exists>d' s'. dbo = Some d' \<and> db_Ping d' s = (None, s')
           \<and> fst (ensureTable (initWriter d' (effectiveConfig config) s')) = None
           \<and> world w = world (snd (ensureTable (initWriter d' (effectiveConfig config) s')))"
    by auto
next
  assume "NewPostgresqlWriter (Some (recDB fails r)) config b = Inr w"
  then show "execs (world w) = execs b @ provisioning (TableName (effectiveConfig config))"
    by (rule NewPostgresqlWriter_rec_execs)
qed

theorem construction_fails_without_backend_witness:
  "NewPostgresqlWriter None None freshBackend = Inl (ErrDbRequired, freshBackend)
   \<and> db_Ping (recDB (\<lambda>h c. False) False) freshBackend = (Some ''unreachable'', freshBackend)
   \<and> NewPostgresqlWriter (Some (recDB (\<lambda>h c. False) False)) None freshBackend
       = Inl (ErrPing ''unreachable'', freshBackend)
   \<and> db_Ping (recDB (\<lambda>h c. fst c = indexQuery ''logs'' ''trace'') True) freshBackend
       = (None, freshBackend)
   \<and> 0 \<le> BufferSize (effectiveConfig None)
   \<and> fst (ensureTable (initWriter (recDB (\<lambda>h c. fst c = indexQuery ''logs'' ''trace'') True)
        (effectiveConfig None) freshBackend)) = Some ''exec failed''
   \<and> isl (NewPostgresqlWriter (Some (recDB (\<lambda>h c. fst c = indexQuery ''logs'' ''trace'') True))
        None freshBackend)
   \<and> NewPostgresqlWriter (Some (recDB (\<lambda>h c. False) True)) None freshBackend = Inr startedWriter
   \<and> execs (world startedWriter) = provisioning ''logs''"
proof -
  let ?bad = "recDB (\<lambda>h c. fst c = indexQuery ''logs'' ''trace'') True"
  let ?ok = "recDB (\<lambda>h c. False) True"
  have p1: "db_Ping (recDB (\<lambda>h c. False) False) freshBackend = (Some ''unreachable'', freshBackend)"
    by (simp add: recDB_def)
  have p2: "db_Ping ?bad freshBackend = (None, freshBackend)"
    by (simp add: recDB_def freshBackend_def)
  have b: "0 \<le> BufferSize (effectiveConfig None)"
    by (simp add: effectiveConfig_def DefaultPostgresConfig_def)
  have e: "fst (ensureTable (initWriter ?bad (effectiveConfig None) freshBackend)) = Some ''exec failed''"
    by (simp add: ensureTable_def initWriter_def effectiveConfig_def DefaultPostgresConfig_def
        recDB_def recExec_def freshBackend_def Let_def createTableQuery_def indexes_def
        indexQuery_def)
  note ok = NewPostgresqlWriter_started
  have d: "TableName (effectiveConfig None) = ''logs''" "execs freshBackend = []"
    by (simp_all add: effectiveConfig_def DefaultPostgresConfig_def freshBackend_def)
  note t1 = construction_fails_without_backend [of None freshBackend
      "recDB (\<lambda>h c. False) False" "''unreachable''" freshBackend None startedWriter
      "\<lambda>h c. False" True freshBackend]
  note t2 = construction_fails_without_backend [of None freshBackend
      ?bad "''exec failed''" freshBackend "Some ?ok" startedWriter "\<lambda>h c. False" True freshBackend]
  from t1 p1 have c1: "NewPostgresqlWriter None None freshBackend = Inl (ErrDbRequired, freshBackend)"
    and c2: "NewPostgresqlWriter (Some (recDB (\<lambda>h c. False) False)) None freshBackend
       = Inl (ErrPing ''unreachable'', freshBackend)"
    by simp_all
  from t2 p2 b e have c3: "isl (NewPostgresqlWriter (Some ?bad) None freshBackend)"
    by simp
  from t2 ok d have c4: "execs (world startedWriter) = provisioning ''logs''"
    by simp
  show ?thesis using c1 c2 c3 c4 p1 p2 b e ok by simp
qed

text \<open>
  Claim C4, as the code has it. A writer constructed with a nil configuration has the table
  name \<open>logs\<close>, the threshold 100 and the interval of 5 seconds, so that both are positive; a
  writer constructed with a configuration has the three values of that configuration as they
  are.
\<close>

theorem nil_config_gets_defaults:
  assumes "NewPostgresqlWriter dbo config s = Inr w"
  shows "(case config of
            None \<Rightarrow> tableName w = ''logs'' \<and> bufferSize w = 100
              \<and> flushInterval w = 5 * 1000000000 \<and> 0 < bufferSize w \<and> 0 < flushInterval w
          | Some c \<Rightarrow> tableName w = TableName c \<and> bufferSize w = BufferSize c
              \<and> flushInterval w = FlushInterval c)"
proof -
  from NewPostgresqlWriter_Inr [OF assms] obtain d s1 where
    w: "w = (snd (ensureTable (initWriter d (effectiveConfig config) s1)))
                   \<lparr>loop := (if FlushInterval (effectiveConfig config) \<le> 0 then LoopPanicked
                             else LoopRunning)\<rparr>"
    by blast
  have "tableName w = TableName (effectiveConfig config)
      \<and> bufferSize w = BufferSize (effectiveConfig config)
      \<and> flushInterval w = FlushInterval (effectiveConfig config)"
    using ensureTable_fields [of "initWriter d (effectiveConfig config) s1"]
    by (simp add: w initWriter_def)
  then show ?thesis
    by (cases config) (simp_all add: effectiveConfig_def DefaultPostgresConfig_def)
qed

theorem nil_config_gets_defaults_witness:
  "NewPostgresqlWriter (Some (recDB (\<lambda>h c. False) True)) None freshBackend = Inr startedWriter
   \<and> tableName startedWriter = ''logs'' \<and> bufferSize startedWriter = 100
   \<and> flushInterval startedWriter = 5000000000
   \<and> NewPostgresqlWriter (Some (recDB (\<lambda>h c. False) True))
        (Some \<lparr>TableName = ''app_logs'', BufferSize = 0, FlushInterval = 1\<rparr>) freshBackend
       = Inr (projr (NewPostgresqlWriter (Some (recDB (\<lambda>h c. False) True))
        (Some \<lparr>TableName = ''app_logs'', BufferSize = 0, FlushInterval = 1\<rparr>) freshBackend))
   \<and> bufferSize (projr (NewPostgresqlWriter (Some (recDB (\<lambda>h c. False) True))
        (Some \<lparr>TableName = ''app_logs'', BufferSize = 0, FlushInterval = 1\<rparr>) freshBackend)) = 0"
proof -
  let ?r = "NewPostgresqlWriter (Some (recDB (\<lambda>h c. False) True))
        (Some \<lparr>TableName = ''app_logs'', BufferSize = 0, FlushInterval = 1\<rparr>) freshBackend"
  have "\<not> isl ?r"
    by (simp add: NewPostgresqlWriter_def ensureTable_def initWriter_def effectiveConfig_def
        recDB_def recExec_def freshBackend_def Let_def indexes_def)
  then have h: "?r = Inr (projr ?r)" by (cases ?r) simp_all
  note t1 = nil_config_gets_defaults [OF NewPostgresqlWriter_started]
  note t2 = nil_config_gets_defaults [OF h]
  show ?thesis using t1 t2 h by (simp add: NewPostgresqlWriter_started)
qed

text \<open>Claim C4 as stated fails on a configuration whose threshold is left unset (zero):
  the writer is constructed and its threshold is 0, not the default 100.\<close>

theorem unset_threshold_counterexample:
  "\<not> isl (NewPostgresqlWriter (Some (recDB (\<lambda>h c. False) True))
        (Some \<lparr>TableName = ''logs'', BufferSize = 0, FlushInterval = 5 * 1000000000\<rparr>) freshBackend)
   \<and> \<not> 0 < bufferSize (projr (NewPostgresqlWriter (Some (recDB (\<lambda>h c. False) True))
        (Some \<lparr>TableName = ''logs'', BufferSize = 0, FlushInterval = 5 * 1000000000\<rparr>) freshBackend))
   \<and> bufferSize (projr (NewPostgresqlWriter (Some (recDB (\<lambda>h c. False) True))
        (Some \<lparr>TableName = ''logs'', BufferSize = 0, FlushInterval = 5 * 1000000000\<rparr>) freshBackend))
       \<noteq> 100"
  by (simp add: NewPostgresqlWriter_def ensureTable_def initWriter_def effectiveConfig_def
        recDB_def recExec_def freshBackend_def Let_def indexes_def)

text \<open>
  Claim C1. The claim reads: \<open>Close\<close> persists every buffered entry before it releases the
  backend. In the scenario, one entry is logged on a freshly constructed writer and \<open>Close\<close>
  is called: when \<open>Close\<close> returns, the backend is closed, no \<open>INSERT\<close> has been executed and
  the batch is still waiting in a started goroutine; when that goroutine runs, its \<open>INSERT\<close>
  fails on the closed backend and the entry is not stored.
\<close>

theorem close_releases_backend_before_persist:
  "NewPostgresqlWriter (Some (recDB (\<lambda>h c. False) True)) None freshBackend = Inr startedWriter
   \<and> \<not> isl closeScenario
   \<and> fst (projr closeScenario) = None
   \<and> goroutines (snd (projr closeScenario)) = [[sampleEntry ''hello'']]
   \<and> buffer (snd (projr closeScenario)) = []
   \<and> closed (world (snd (projr closeScenario)))
   \<and> execs (world (snd (projr closeScenario))) = provisioning ''logs''
   \<and> stored (world (snd (projr closeScenario))) = provisioning ''logs''
   \<and> execs (world (runGoroutine nullRuntime clock 0 (snd (projr closeScenario))))
       = provisioning ''logs'' @ [insertCall nullRuntime ''logs'' 0 (sampleEntry ''hello'')]
   \<and> stored (world (runGoroutine nullRuntime clock 0 (snd (projr closeScenario))))
       = provisioning ''logs''"
proof -
  have c: "closeScenario =
      Inr (None, (sampleWriter 100)\<lparr>done_closed := True, loop := LoopExited,
            goroutines := [[sampleEntry ''hello'']],
            world := freshBackend\<lparr>execs := provisioning ''logs'',
              stored := provisioning ''logs'', closed := True\<rparr>\<rparr>)"
    by (simp add: closeScenario_def startedWriter_def Close_def Log_def AddEntry_def Flush_def
        flushLocked_def sampleWriter_def sampleEntry_def Let_def recDB_def)
  have r: "execs (world (runGoroutine nullRuntime clock 0 (snd (projr closeScenario))))
       = provisioning ''logs'' @ [insertCall nullRuntime ''logs'' 0 (sampleEntry ''hello'')]
   \<and> stored (world (runGoroutine nullRuntime clock 0 (snd (projr closeScenario))))
       = provisioning ''logs''"
    by (simp add: c runGoroutine_def sampleWriter_def freshBackend_def recDB_def recExec_def
        Let_def insertCall_def)
  have q: "goroutines (snd (projr closeScenario)) = [[sampleEntry ''hello'']]
   \<and> buffer (snd (projr closeScenario)) = []
   \<and> closed (world (snd (projr closeScenario)))
   \<and> execs (world (snd (projr closeScenario))) = provisioning ''logs''
   \<and> stored (world (snd (projr closeScenario))) = provisioning ''logs''"
    by (simp add: c sampleWriter_def freshBackend_def)
  have i: "\<not> isl closeScenario \<and> fst (projr closeScenario) = None"
    by (simp add: c)
  from NewPostgresqlWriter_started i q r show ?thesis by blast
qed

end
